theory Spec2Isabelle
  imports Complex_Main
begin

section \<open>The snake game of \<open>src/app/page.tsx\<close>\<close>

text \<open>
  The page keeps one mutable \<open>GameState\<close> object behind a ref and a handful of React
  state cells and refs beside it. The model passes that state explicitly: every handler
  of the page is a function from the state before to the state after. Grid coordinates,
  the score and the tick interval are whole numbers and are modelled as \<open>int\<close>; times
  (frame timestamps, the accumulator, the grace timer) and pointer positions are
  fractional and are modelled as \<open>rat\<close>.
\<close>

subsection \<open>Vectors\<close>

record Vec =
  x :: int
  y :: int

definition EQ :: "Vec \<Rightarrow> Vec \<Rightarrow> bool" where
  "EQ a b = (x a = x b \<and> y a = y b)"

definition add :: "Vec \<Rightarrow> Vec \<Rightarrow> Vec" where
  "add a b = \<lparr>x = x a + x b, y = y a + y b\<rparr>"

definition opposite :: "Vec \<Rightarrow> Vec \<Rightarrow> bool" where
  "opposite a b = (x a = - x b \<and> y a = - y b)"

text \<open>\<open>Array.prototype.some\<close>: true iff the predicate holds of an element.\<close>

fun some :: "('a \<Rightarrow> bool) \<Rightarrow> 'a list \<Rightarrow> bool" where
  "some p [] = False"
| "some p (s # ss) = (if p s then True else some p ss)"

subsection \<open>The game state\<close>

record GameState =
  gridSize :: int
  cell :: int
  snake :: "Vec list"
  dir :: Vec
  nextDir :: Vec
  food :: Vec
  score :: int
  tickMs :: int
  grace :: rat

subsection \<open>Key codes (lines 22-33)\<close>

definition DIRS :: "(string \<times> Vec) list" where
  "DIRS =
    [(''ArrowUp'', \<lparr>x = 0, y = -1\<rparr>),
     (''ArrowDown'', \<lparr>x = 0, y = 1\<rparr>),
     (''ArrowLeft'', \<lparr>x = -1, y = 0\<rparr>),
     (''ArrowRight'', \<lparr>x = 1, y = 0\<rparr>),
     (''KeyW'', \<lparr>x = 0, y = -1\<rparr>),
     (''KeyS'', \<lparr>x = 0, y = 1\<rparr>),
     (''KeyA'', \<lparr>x = -1, y = 0\<rparr>),
     (''KeyD'', \<lparr>x = 1, y = 0\<rparr>)]"

text \<open>
  \<open>code in DIRS ? DIRS[code] : null\<close>, for the \<open>code\<close> of a keyboard event: such a
  code is never the name of a property that \<open>DIRS\<close> inherits, so \<open>in\<close> is membership of
  the table.
\<close>

definition getDirForCode :: "string \<Rightarrow> Vec option" where
  "getDirForCode code = map_of DIRS code"

subsection \<open>The speed curve (line 258)\<close>

text \<open>
  \<open>170 - Math.floor((170 - 80) * Math.min(st.score, 30) / 30)\<close>. The quotient of two
  whole numbers, floored, is the integer division of HOL, which rounds down as well.
\<close>

definition speedCurve :: "int \<Rightarrow> int" where
  "speedCurve sc = 170 - ((170 - 80) * min sc 30) div 30"

subsection \<open>The food spawner (lines 35-40)\<close>

text \<open>
  \<open>Math.random\<close> is the one source of nondeterminism. The model takes the sequence of
  its results as a parameter, \<open>random k\<close> being the result of call number \<open>k\<close>, and
  threads the number of calls made so far. The loop of \<open>randFood\<close> has no bound: where
  it never leaves, the model has the value \<open>None\<close>. The product of a result with the
  grid size is taken exactly; the rounding of the floating-point product is not modelled.
  Local names that are also field names carry a prime.
\<close>

definition sample :: "(nat \<Rightarrow> rat) \<Rightarrow> nat \<Rightarrow> int \<Rightarrow> Vec" where
  "sample random n gridSize' =
     \<lparr>x = \<lfloor>random n * of_int gridSize'\<rfloor>, y = \<lfloor>random (n + 1) * of_int gridSize'\<rfloor>\<rparr>"

partial_function (option) randFood ::
  "(nat \<Rightarrow> rat) \<Rightarrow> nat \<Rightarrow> int \<Rightarrow> Vec list \<Rightarrow> (Vec \<times> nat) option" where
  "randFood random n gridSize' snake' =
     (let f = sample random n gridSize'
      in if \<not> some (\<lambda>s. EQ s f) snake' then Some (f, n + 2)
         else randFood random (n + 2) gridSize' snake')"

declare randFood.simps [code]

subsection \<open>The page state\<close>

text \<open>
  The React state cells and the refs of \<open>SnakePage\<close>, apart from \<open>stateRef\<close>, whose
  content is passed beside the page as a \<open>GameState option\<close> (\<open>None\<close> for \<open>null\<close>).
  \<open>scoreState\<close> is the state cell \<open>score\<close>; \<open>best\<close> is a finite number, as the
  initialiser of \<open>useBestScore\<close> below only gives such; \<open>randomCalls\<close> counts the calls
  of \<open>Math.random\<close> made so far. A state setter is modelled as an immediate update.
\<close>

record Page =
  running :: bool
  gameOver :: bool
  scoreState :: int
  best :: rat
  lastTsRef :: rat
  accRef :: rat
  gameOverAtRef :: "rat option"
  touchStartRef :: "(rat \<times> rat) option"
  randomCalls :: nat

datatype error = TypeError

text \<open>
  The outcome of a call: \<open>None\<close> when it never returns, \<open>Some (Inl e)\<close> when it throws
  \<open>e\<close>, \<open>Some (Inr v)\<close> when it returns \<open>v\<close>.
\<close>

type_synonym 'a outcome = "(error + 'a) option"

subsection \<open>Reset (lines 87-113)\<close>

text \<open>
  \<open>canvas\<close> is the client width and height of the canvas element, \<open>None\<close> when the
  ref is still empty (reading \<open>cvs.clientWidth\<close> then throws). The call of
  \<open>resizeCanvas\<close> inside \<open>reset\<close> writes the style of the canvas and the \<open>cell\<close> of the
  state object that \<open>reset\<close> is about to replace, so it leaves no trace in the result.
\<close>

definition reset :: "(nat \<Rightarrow> rat) \<Rightarrow> (int \<times> int) option \<Rightarrow> Page \<Rightarrow> (GameState \<times> Page) outcome" where
  "reset random canvas p =
     (let gridSize' = 14;
          snake' = [\<lparr>x = gridSize' div 2, y = gridSize' div 2\<rparr>,
                    \<lparr>x = gridSize' div 2 - 1, y = gridSize' div 2\<rparr>];
          dir' = \<lparr>x = 1, y = 0\<rparr>
      in case canvas of
           None \<Rightarrow> Some (Inl TypeError)
         | Some (clientWidth, clientHeight) \<Rightarrow>
             let cssSize = min clientWidth clientHeight;
                 cell' = max 8 (cssSize div gridSize')
             in case randFood random (randomCalls p) gridSize' snake' of
                  None \<Rightarrow> None
                | Some (food', n) \<Rightarrow>
                    Some (Inr
                      (\<lparr>gridSize = gridSize', cell = cell', snake = snake', dir = dir',
                        nextDir = dir', food = food', score = 0, tickMs = 170, grace = 0\<rparr>,
                       p\<lparr>randomCalls := n, scoreState := 0, gameOver := False,
                         gameOverAtRef := None\<rparr>)))"

subsection \<open>Resizing (lines 70-85)\<close>

text \<open>
  Of \<open>resizeCanvas\<close> only the write to the game state is modelled: \<open>target\<close> is the
  client width of the parent element. \<open>gridSize\<close> is 14 in every state that \<open>reset\<close>
  creates, so the division is by 14.
\<close>

definition resizeCanvas :: "int \<Rightarrow> GameState option \<Rightarrow> GameState option" where
  "resizeCanvas target stateRef =
     (case stateRef of
        None \<Rightarrow> None
      | Some st \<Rightarrow> Some (st\<lparr>cell := max 8 (target div gridSize st)\<rparr>))"

subsection \<open>Keyboard input (lines 128-136)\<close>

definition onKey :: "string \<Rightarrow> GameState option \<Rightarrow> GameState option" where
  "onKey code stateRef =
     (case getDirForCode code of
        None \<Rightarrow> stateRef
      | Some d \<Rightarrow>
          (case stateRef of
             None \<Rightarrow> None
           | Some st \<Rightarrow>
               Some ((if \<not> opposite d (dir st) then st\<lparr>nextDir := d\<rparr> else st)\<lparr>grace := 250\<rparr>)))"

subsection \<open>Touch input (lines 142-188)\<close>

definition handleTouchStart :: "(rat \<times> rat) option \<Rightarrow> Page \<Rightarrow> Page" where
  "handleTouchStart touch p =
     (case touch of
        None \<Rightarrow> p
      | Some (clientX, clientY) \<Rightarrow> p\<lparr>touchStartRef := Some (clientX, clientY)\<rparr>)"

text \<open>Lines 169-177: the direction of a swipe that is long enough.\<close>

definition swipeDirection :: "rat \<Rightarrow> rat \<Rightarrow> Vec" where
  "swipeDirection deltaX deltaY =
     (if \<bar>deltaX\<bar> > \<bar>deltaY\<bar>
      then (if deltaX > 0 then \<lparr>x = 1, y = 0\<rparr> else \<lparr>x = -1, y = 0\<rparr>)
      else (if deltaY > 0 then \<lparr>x = 0, y = 1\<rparr> else \<lparr>x = 0, y = -1\<rparr>))"

definition handleTouchEnd ::
  "(rat \<times> rat) option \<Rightarrow> GameState option \<Rightarrow> Page \<Rightarrow> GameState option \<times> Page" where
  "handleTouchEnd touch stateRef p =
     (case touchStartRef p of
        None \<Rightarrow> (stateRef, p)
      | Some (startX, startY) \<Rightarrow>
          (case touch of
             None \<Rightarrow> (stateRef, p)
           | Some (clientX, clientY) \<Rightarrow>
               let deltaX = clientX - startX;
                   deltaY = clientY - startY;
                   minSwipeDistance = 30;
                   absX = \<bar>deltaX\<bar>;
                   absY = \<bar>deltaY\<bar>
               in if max absX absY < minSwipeDistance
                  then (stateRef, p\<lparr>touchStartRef := None\<rparr>)
                  else
                    let direction = swipeDirection deltaX deltaY
                    in ((case stateRef of
                           None \<Rightarrow> None
                         | Some st \<Rightarrow>
                             if \<not> opposite direction (dir st)
                             then Some (st\<lparr>nextDir := direction, grace := 250\<rparr>)
                             else Some st),
                        p\<lparr>touchStartRef := None\<rparr>)))"

subsection \<open>One simulation tick (lines 234-261)\<close>

text \<open>Line 235: the pending direction becomes the current one unless it reverses it.\<close>

definition commitDir :: "GameState \<Rightarrow> GameState" where
  "commitDir st = (if \<not> opposite (nextDir st) (dir st) then st\<lparr>dir := nextDir st\<rparr> else st)"

text \<open>Lines 237-242: both tests read the snake as it is before the move.\<close>

definition hitWall :: "GameState \<Rightarrow> Vec \<Rightarrow> bool" where
  "hitWall st newHead =
     (x newHead < 0 \<or> y newHead < 0 \<or> x newHead \<ge> gridSize st \<or> y newHead \<ge> gridSize st)"

definition hitSelf :: "GameState \<Rightarrow> Vec \<Rightarrow> bool" where
  "hitSelf st newHead = some (\<lambda>s. EQ s newHead) (snake st)"

datatype flow = Continue | Break

text \<open>
  The body of the \<open>while\<close> loop, once: \<open>Break\<close> when it leaves the loop, \<open>Continue\<close>
  when it reaches the end of the body. \<open>now\<close> is the value of \<open>performance.now()\<close>.
  Reading \<open>st.snake[0]\<close> of an empty snake gives \<open>undefined\<close>, and \<open>add\<close> then throws.
\<close>

definition tick ::
  "(nat \<Rightarrow> rat) \<Rightarrow> rat \<Rightarrow> GameState \<Rightarrow> Page \<Rightarrow> (flow \<times> GameState \<times> Page) outcome" where
  "tick random now st0 p0 =
     (let p = p0\<lparr>accRef := accRef p0 - of_int (tickMs st0)\<rparr>;
          st = commitDir st0
      in case snake st of
           [] \<Rightarrow> Some (Inl TypeError)
         | s0 # _ \<Rightarrow>
             let newHead = add s0 (dir st)
             in if (hitWall st newHead \<or> hitSelf st newHead) \<and> grace st \<le> 0 then
                  Some (Inr (Break, st,
                    p\<lparr>gameOver := True, running := False,
                      best := max (best p) (of_int (score st)),
                      gameOverAtRef := Some now\<rparr>))
                else if hitWall st newHead \<or> hitSelf st newHead then
                  Some (Inr (Break, st\<lparr>grace := 0\<rparr>, p))
                else
                  let st1 = st\<lparr>snake := newHead # snake st\<rparr>
                  in if EQ newHead (food st1) then
                       let st2 = st1\<lparr>score := score st1 + 1\<rparr>
                       in case randFood random (randomCalls p) (gridSize st2) (snake st2) of
                            None \<Rightarrow> None
                          | Some (f, n) \<Rightarrow>
                              Some (Inr (Continue,
                                st2\<lparr>food := f, tickMs := speedCurve (score st2)\<rparr>,
                                p\<lparr>scoreState := score st2, randomCalls := n\<rparr>))
                     else Some (Inr (Continue, st1\<lparr>snake := butlast (snake st1)\<rparr>, p)))"

subsection \<open>One frame (lines 217-266)\<close>

text \<open>The catch-up loop of lines 233-262.\<close>

partial_function (option) stepping ::
  "(nat \<Rightarrow> rat) \<Rightarrow> rat \<Rightarrow> GameState \<Rightarrow> Page \<Rightarrow> (error + GameState \<times> Page) option" where
  "stepping random now st p =
     (if accRef p \<ge> of_int (tickMs st) then
        (case tick random now st p of
           None \<Rightarrow> None
         | Some (Inl e) \<Rightarrow> Some (Inl e)
         | Some (Inr (Break, st', p')) \<Rightarrow> Some (Inr (st', p'))
         | Some (Inr (Continue, st', p')) \<Rightarrow> stepping random now st' p')
      else Some (Inr (st, p)))"

text \<open>
  The frame callback, without the drawing: \<open>ctx\<close> tells whether the canvas gave a
  drawing context, \<open>ts\<close> is the timestamp of the frame. The guard reads \<open>running\<close> and
  \<open>gameOver\<close> from the page state: the callback's own copies are those of the last
  render, which the model takes to be up to date.
\<close>

definition step ::
  "(nat \<Rightarrow> rat) \<Rightarrow> rat \<Rightarrow> bool \<Rightarrow> rat \<Rightarrow> GameState option \<Rightarrow> Page
     \<Rightarrow> (GameState option \<times> Page) outcome" where
  "step random now ctx ts stateRef p0 =
     (case stateRef of
        None \<Rightarrow> Some (Inr (None, p0))
      | Some st \<Rightarrow>
          if \<not> ctx then Some (Inr (Some st, p0))
          else
            let dt = (if lastTsRef p0 \<noteq> 0 then ts - lastTsRef p0 else 0);
                p = p0\<lparr>lastTsRef := ts\<rparr>
            in if running p \<and> \<not> gameOver p then
                 (case stepping random now (st\<lparr>grace := max 0 (grace st - dt)\<rparr>)
                         (p\<lparr>accRef := accRef p + dt\<rparr>) of
                    None \<Rightarrow> None
                  | Some (Inl e) \<Rightarrow> Some (Inl e)
                  | Some (Inr (st', p')) \<Rightarrow> Some (Inr (Some st', p')))
               else Some (Inr (Some st, p)))"

subsection \<open>Loading the best score (lines 44-49)\<close>




section \<open>Notions of the specification\<close>

text \<open>A cell of the \<open>N\<close> by \<open>N\<close> grid, and the four unit directions.\<close>

definition inGrid :: "int \<Rightarrow> Vec \<Rightarrow> bool" where
  "inGrid N c = (0 \<le> x c \<and> x c < N \<and> 0 \<le> y c \<and> y c < N)"



text \<open>
  What the page relies on of \<open>Math.random\<close>: each result lies in \<open>[0, 1)\<close>, and, as a
  stand-in for "uniformly at random", no cell of the grid is left out for ever: from call
  number \<open>n\<close> on, every cell is sampled at some later pair of calls. A source that
  offers occupied cells only keeps \<open>randFood\<close> in its loop for ever.
\<close>

definition unitInterval :: "(nat \<Rightarrow> rat) \<Rightarrow> bool" where
  "unitInterval random = (\<forall>k. 0 \<le> random k \<and> random k < 1)"

definition fair :: "(nat \<Rightarrow> rat) \<Rightarrow> nat \<Rightarrow> int \<Rightarrow> bool" where
  "fair random n N = (\<forall>c. inGrid N c \<longrightarrow> (\<exists>k. sample random (n + 2 * k) N = c))"

text \<open>
  An example of such a sequence, used to run the page on concrete inputs: it scans the
  \<open>N\<close> by \<open>N\<close> grid row by row, again and again.
\<close>

definition scan :: "nat \<Rightarrow> nat \<Rightarrow> rat" where
  "scan N j =
     of_nat (if even j then (j div 2) mod N else ((j div 2) div N) mod N) / of_nat N"

text \<open>
  A concrete state of play: the snake of two cells heading right, with the food in the
  cell in front of its head.
\<close>

definition exampleState :: GameState where
  "exampleState =
     \<lparr>gridSize = 14, cell = 20, snake = [\<lparr>x = 7, y = 7\<rparr>, \<lparr>x = 6, y = 7\<rparr>],
      dir = \<lparr>x = 1, y = 0\<rparr>, nextDir = \<lparr>x = 1, y = 0\<rparr>, food = \<lparr>x = 8, y = 7\<rparr>,
      score = 0, tickMs = 170, grace = 0\<rparr>"

definition examplePage :: Page where
  "examplePage =
     \<lparr>running = True, gameOver = False, scoreState = 0, best = 0, lastTsRef = 0,
      accRef = 170, gameOverAtRef = None, touchStartRef = None, randomCalls = 0\<rparr>"


text \<open>
  The states the page can be in. It starts with an empty \<open>stateRef\<close> beside any page
  state; the mount effect
  and the restart timer call \<open>reset\<close> and then \<open>setRunning(true)\<close>; the listeners run
  between frames; every frame stores its timestamp, and a frame that steps lets the grace
  timer decay and then runs ticks while the accumulator allows. The frame callback reads
  \<open>running\<close> and \<open>gameOver\<close> as they were when its effect was set up, so the two rules
  of a stepping frame do not depend on the state cells.
\<close>

inductive reachable :: "(nat \<Rightarrow> rat) \<Rightarrow> GameState option \<Rightarrow> Page \<Rightarrow> bool"
  for random :: "nat \<Rightarrow> rat" where
  mount: "reachable random None p"
| restart:
    "reachable random stateRef p \<Longrightarrow> reset random canvas p = Some (Inr (st', p'))
     \<Longrightarrow> reachable random (Some st') (p'\<lparr>running := True\<rparr>)"
| resize:
    "reachable random stateRef p \<Longrightarrow> reachable random (resizeCanvas target stateRef) p"
| key:
    "reachable random stateRef p \<Longrightarrow> reachable random (onKey code stateRef) p"
| touchStart:
    "reachable random stateRef p \<Longrightarrow> reachable random stateRef (handleTouchStart touch p)"
| touchEnd:
    "reachable random stateRef p \<Longrightarrow> handleTouchEnd touch stateRef p = (stateRef', p')
     \<Longrightarrow> reachable random stateRef' p'"
| idle:
    "reachable random stateRef p \<Longrightarrow> reachable random stateRef (p\<lparr>lastTsRef := ts\<rparr>)"
| decay:
    "reachable random (Some st) p
     \<Longrightarrow> reachable random (Some (st\<lparr>grace := max 0 (grace st - dt)\<rparr>))
           (p\<lparr>lastTsRef := ts, accRef := accRef p + dt\<rparr>)"
| ticked:
    "reachable random (Some st) p \<Longrightarrow> accRef p \<ge> of_int (tickMs st)
     \<Longrightarrow> tick random now st p = Some (Inr (fl, st', p'))
     \<Longrightarrow> reachable random (Some st') p'"

section \<open>Basic facts\<close>

subsection \<open>Vectors and the two collision tests\<close>

lemma EQ_iff: "EQ a b \<longleftrightarrow> a = b"
  by (auto simp: EQ_def)

lemma some_iff: "some q xs \<longleftrightarrow> (\<exists>s\<in>set xs. q s)"
  by (induction xs) auto

lemma hitSelf_iff: "hitSelf st c \<longleftrightarrow> c \<in> set (snake st)"
  by (auto simp: hitSelf_def some_iff EQ_iff)

lemma hitWall_iff: "hitWall st c \<longleftrightarrow> \<not> inGrid (gridSize st) c"
  by (auto simp: hitWall_def inGrid_def)

lemma commitDir_fields:
  "snake (commitDir st) = snake st" "gridSize (commitDir st) = gridSize st"
  "grace (commitDir st) = grace st" "score (commitDir st) = score st"
  "food (commitDir st) = food st" "nextDir (commitDir st) = nextDir st"
  "tickMs (commitDir st) = tickMs st" "cell (commitDir st) = cell st"
  by (simp_all add: commitDir_def)

subsection \<open>The food spawner\<close>

text \<open>
  Whatever \<open>randFood\<close> returns is one of the sampled cells and is off the snake
  (\<open>randFood_sound\<close>); it returns as soon as a sampled cell is free
  (\<open>randFood_returns\<close>), and it never returns when none is (\<open>randFood_never_returns\<close>).
\<close>

lemma sample_inGrid:
  assumes "unitInterval random" "0 < N"
  shows "inGrid N (sample random n N)"
proof -
  have r: "0 \<le> random k \<and> random k < 1" for k using assms(1) by (simp add: unitInterval_def)
  have "0 \<le> \<lfloor>random k * of_int N\<rfloor> \<and> \<lfloor>random k * of_int N\<rfloor> < N" for k
  proof -
    have "0 \<le> random k * of_int N" using r[of k] assms(2) by simp
    moreover have "random k * of_int N < of_int N" using r[of k] assms(2) by simp
    ultimately show ?thesis by (simp add: floor_less_iff)
  qed
  then show ?thesis by (simp add: inGrid_def sample_def)
qed

lemma randFood_free_now:
  "sample random n N \<notin> set body \<Longrightarrow> randFood random n N body = Some (sample random n N, n + 2)"
  by (subst randFood.simps) (simp add: some_iff EQ_iff)

lemma randFood_occupied_now:
  "sample random n N \<in> set body \<Longrightarrow> randFood random n N body = randFood random (n + 2) N body"
  by (subst randFood.simps) (simp add: some_iff EQ_iff)

lemma randFood_returns:
  "sample random (n + 2 * k) N \<notin> set body \<Longrightarrow>
   \<exists>j\<le>k. randFood random n N body = Some (sample random (n + 2 * j) N, n + 2 * j + 2)
        \<and> sample random (n + 2 * j) N \<notin> set body"
proof (induction k arbitrary: n)
  case 0
  then show ?case by (simp add: randFood_free_now)
next
  case (Suc k)
  show ?case
  proof (cases "sample random n N \<in> set body")
    case False
    then have "randFood random n N body = Some (sample random (n + 2 * 0) N, n + 2 * 0 + 2) \<and> sample random (n + 2 * 0) N \<notin> set body"
      by (simp add: randFood_free_now)
    then show ?thesis by blast
  next
    case True
    from Suc.prems have "sample random ((n + 2) + 2 * k) N \<notin> set body" by (simp add: add.assoc)
    from Suc.IH[OF this] obtain j where j: "j \<le> k"
      "randFood random (n + 2) N body = Some (sample random (n + 2 + 2 * j) N, n + 2 + 2 * j + 2)"
      "sample random (n + 2 + 2 * j) N \<notin> set body" by blast
    have e: "n + 2 + 2 * j = n + 2 * Suc j" by simp
    have "Suc j \<le> Suc k" using j(1) by simp
    moreover have "randFood random n N body = Some (sample random (n + 2 * Suc j) N, n + 2 * Suc j + 2)"
      using j(2) True by (simp add: randFood_occupied_now e)
    moreover have "sample random (n + 2 * Suc j) N \<notin> set body" using j(3) by (simp add: e)
    ultimately show ?thesis by blast
  qed
qed

lemma randFood_sound:
  assumes "randFood random n N body = Some fm"
  shows "\<exists>k. fst fm = sample random (n + 2 * k) N \<and> snd fm = n + 2 * k + 2 \<and> fst fm \<notin> set body"
proof (rule randFood.raw_induct[where P = "\<lambda>random n N body fm.
    \<exists>k. fst fm = sample random (n + 2 * k) N \<and> snd fm = n + 2 * k + 2 \<and> fst fm \<notin> set body", OF _ assms], goal_cases)
  case (1 rf random n N body fm)
  show ?case
  proof (cases "sample random n N \<in> set body")
    case False
    with 1(2) have "fm = (sample random n N, n + 2)"
      by (simp add: some_iff EQ_iff Let_def)
    with False show ?thesis by (intro exI[of _ 0]) simp
  next
    case True
    with 1(2) have "rf random (n + 2) N body = Some fm"
      by (simp add: some_iff EQ_iff Let_def)
    from 1(1)[OF this] obtain k where
      k: "fst fm = sample random (n + 2 + 2 * k) N" "snd fm = n + 2 + 2 * k + 2" "fst fm \<notin> set body"
      by blast
    have e: "n + 2 + 2 * k = n + 2 * Suc k" by simp
    show ?thesis using k unfolding e by blast
  qed
qed

lemma randFood_never_returns:
  assumes "\<And>k. sample random (n + 2 * k) N \<in> set body"
  shows "randFood random n N body = None"
proof (rule ccontr)
  assume "randFood random n N body \<noteq> None"
  then obtain fm where "randFood random n N body = Some fm" by auto
  from randFood_sound[OF this] obtain k where
    "fst fm = sample random (n + 2 * k) N" "fst fm \<notin> set body" by blast
  with assms[of k] show False by simp
qed

lemma free_cell_exists:
  assumes "0 < N" "int (card (set body)) < N * N"
  shows "\<exists>c. inGrid N c \<and> c \<notin> set body"
proof (rule ccontr)
  assume "\<not> ?thesis"
  then have all: "\<And>c. inGrid N c \<Longrightarrow> c \<in> set body" by blast
  let ?G = "(\<lambda>(a, b). \<lparr>x = a, y = b\<rparr>) ` ({0..<N} \<times> {0..<N})"
  have "inj_on (\<lambda>(a, b). \<lparr>x = a, y = b\<rparr>) ({0..<N} \<times> {0..<N})"
    by (auto simp: inj_on_def)
  then have "card ?G = card ({0..<N} \<times> {0..<N})" by (rule card_image)
  also have "\<dots> = nat N * nat N" by (simp add: card_cartesian_product)
  finally have cG: "card ?G = nat N * nat N" .
  have "?G \<subseteq> set body" using all by (auto simp: inGrid_def)
  then have "card ?G \<le> card (set body)" by (simp add: card_mono)
  then have le: "nat N * nat N \<le> card (set body)" using cG by simp
  have "N * N = int (nat N) * int (nat N)" using assms(1) by simp
  also have "\<dots> = int (nat N * nat N)" by simp
  also have "\<dots> \<le> int (card (set body))" using le by (simp only: of_nat_le_iff)
  finally show False using assms(2) by simp
qed

lemma randFood_total:
  assumes "0 < N" "int (card (set body)) < N * N" "unitInterval random" "fair random n N"
  shows "\<exists>f m. randFood random n N body = Some (f, m) \<and> inGrid N f \<and> f \<notin> set body"
proof -
  from free_cell_exists[OF assms(1,2)] obtain c where c: "inGrid N c" "c \<notin> set body" by blast
  from assms(4) c(1) obtain k where "sample random (n + 2 * k) N = c" by (auto simp: fair_def)
  with c(2) have "sample random (n + 2 * k) N \<notin> set body" by simp
  from randFood_returns[OF this] obtain j where
    "randFood random n N body = Some (sample random (n + 2 * j) N, n + 2 * j + 2)"
    "sample random (n + 2 * j) N \<notin> set body" by blast
  moreover have "inGrid N (sample random (n + 2 * j) N)" by (rule sample_inGrid[OF assms(3,1)])
  ultimately show ?thesis by blast
qed

subsection \<open>The scanning source is fair\<close>

lemma scan_unitInterval: "0 < N \<Longrightarrow> unitInterval (scan N)"
  by (simp add: unitInterval_def scan_def)

lemma sample_scan:
  assumes "0 < N"
  shows "sample (scan N) (2 * k) (int N) = \<lparr>x = int (k mod N), y = int ((k div N) mod N)\<rparr>"
proof -
  have a: "(of_nat a / of_nat N) * (of_int (int N) :: rat) = of_nat a" for a
    using assms by simp
  have f: "\<lfloor>(of_nat a :: rat)\<rfloor> = int a" for a by simp
  show ?thesis
    by (simp only: sample_def scan_def a f) simp
qed

lemma scan_fair:
  assumes "0 < N"
  shows "fair (scan N) 0 (int N)"
  unfolding fair_def
proof (intro allI impI)
  fix c :: Vec
  assume c: "inGrid (int N) c"
  define k where "k = nat (x c) + N * nat (y c)"
  have xN: "nat (x c) < N" and yN: "nat (y c) < N" using c by (auto simp: inGrid_def)
  have "k mod N = nat (x c)" using xN by (simp add: k_def)
  moreover have "(k div N) mod N = nat (y c)" using xN yN by (simp add: k_def)
  ultimately have "sample (scan N) (2 * k) (int N) = \<lparr>x = int (nat (x c)), y = int (nat (y c))\<rparr>"
    by (simp add: sample_scan[OF assms])
  also have "\<dots> = c" using c by (simp add: inGrid_def)
  finally show "\<exists>k. sample (scan N) (0 + 2 * k) (int N) = c" by auto
qed

subsection \<open>The tick, case by case\<close>

lemma speedCurve_eq: "speedCurve sc = 170 - 3 * min sc 30"
  by (simp add: speedCurve_def)

lemma tick_cases:
  assumes "snake st = s0 # r"
  shows "tick random now st p =
    (let p1 = p\<lparr>accRef := accRef p - of_int (tickMs st)\<rparr>;
         c = commitDir st;
         h = add s0 (dir c)
     in if (hitWall c h \<or> hitSelf c h) \<and> grace st \<le> 0 then
          Some (Inr (Break, c,
            p1\<lparr>gameOver := True, running := False,
               best := max (best p) (of_int (score st)), gameOverAtRef := Some now\<rparr>))
        else if hitWall c h \<or> hitSelf c h then Some (Inr (Break, c\<lparr>grace := 0\<rparr>, p1))
        else if h = food st then
          (case randFood random (randomCalls p) (gridSize st) (h # snake st) of
             None \<Rightarrow> None
           | Some (f, n) \<Rightarrow>
               Some (Inr (Continue,
                 c\<lparr>snake := h # snake st, score := score st + 1, food := f,
                   tickMs := speedCurve (score st + 1)\<rparr>,
                 p1\<lparr>scoreState := score st + 1, randomCalls := n\<rparr>)))
        else Some (Inr (Continue, c\<lparr>snake := h # butlast (snake st)\<rparr>, p1)))"
proof -
  have "snake (commitDir st) = s0 # r" using assms by (simp add: commitDir_fields)
  then show ?thesis
    by (simp add: tick_def Let_def commitDir_fields EQ_iff split: option.splits)
qed

lemma tick_empty: "snake st = [] \<Longrightarrow> tick random now st p = Some (Inl TypeError)"
  by (simp add: tick_def Let_def commitDir_fields)

lemma tick_returns_nonempty:
  "tick random now st p = Some (Inr res) \<Longrightarrow> \<exists>s0 r. snake st = s0 # r"
  by (cases "snake st") (simp_all add: tick_empty)

lemma tick_total:
  assumes "snake st = s0 # r" and "h = add s0 (dir (commitDir st))"
    and "hitWall (commitDir st) h \<or> hitSelf (commitDir st) h \<or> h \<noteq> food st
         \<or> (0 < gridSize st \<and> int (card (set (h # snake st))) < gridSize st * gridSize st
            \<and> unitInterval random \<and> fair random (randomCalls p) (gridSize st))"
  shows "\<exists>fl st' p'. tick random now st p = Some (Inr (fl, st', p'))"
proof (cases "hitWall (commitDir st) h \<or> hitSelf (commitDir st) h \<or> h \<noteq> food st")
  case True
  then show ?thesis using assms(2) unfolding tick_cases[OF assms(1)]
    by (auto simp: Let_def)
next
  case False
  with assms(3) have f: "0 < gridSize st" "int (card (set (h # snake st))) < gridSize st * gridSize st"
    "unitInterval random" "fair random (randomCalls p) (gridSize st)" by auto
  from randFood_total[OF f] obtain f m where
    "randFood random (randomCalls p) (gridSize st) (h # snake st) = Some (f, m)" by blast
  then show ?thesis using False assms(2) unfolding tick_cases[OF assms(1)]
    by (auto simp: Let_def)
qed

lemma step_stopped:
  "\<not> (running p \<and> \<not> gameOver p) \<Longrightarrow>
   step random now ctx ts (Some st) p =
     Some (Inr (Some st, if ctx then p\<lparr>lastTsRef := ts\<rparr> else p))"
  by (auto simp: step_def Let_def)

lemma example_tick:
  "tick (scan 14) now exampleState examplePage =
     Some (Inr (Continue,
       exampleState\<lparr>snake := [\<lparr>x = 8, y = 7\<rparr>, \<lparr>x = 7, y = 7\<rparr>, \<lparr>x = 6, y = 7\<rparr>], score := 1,
         food := \<lparr>x = 0, y = 0\<rparr>, tickMs := 167\<rparr>,
       examplePage\<lparr>accRef := 0, scoreState := 1, randomCalls := 2\<rparr>))"
proof -
  have s: "snake exampleState = \<lparr>x = 7, y = 7\<rparr> # [\<lparr>x = 6, y = 7\<rparr>]" by (simp add: exampleState_def)
  have r: "randFood (scan 14) 0 14 [\<lparr>x = 8, y = 7\<rparr>, \<lparr>x = 7, y = 7\<rparr>, \<lparr>x = 6, y = 7\<rparr>] = Some (\<lparr>x = 0, y = 0\<rparr>, 2)"
    by (subst randFood.simps) (simp add: sample_def scan_def EQ_def Let_def)
  show ?thesis
    unfolding tick_cases[OF s]
    by (simp add: exampleState_def examplePage_def commitDir_def opposite_def add_def hitWall_def hitSelf_def EQ_def speedCurve_def r)
qed

subsection \<open>The invariant is inductive\<close>





lemma reset_result:
  assumes "reset random canvas p = Some (Inr (st', p'))"
  shows "gridSize st' = 14 \<and> snake st' = [\<lparr>x = 7, y = 7\<rparr>, \<lparr>x = 6, y = 7\<rparr>]
         \<and> dir st' = \<lparr>x = 1, y = 0\<rparr> \<and> nextDir st' = \<lparr>x = 1, y = 0\<rparr> \<and> score st' = 0
         \<and> tickMs st' = 170 \<and> grace st' = 0 \<and> food st' \<notin> set (snake st')"
proof -
  from assms obtain w h f n where
    c: "canvas = Some (w, h)" and
    r: "randFood random (randomCalls p) 14 [\<lparr>x = 7, y = 7\<rparr>, \<lparr>x = 6, y = 7\<rparr>] = Some (f, n)" and
    st: "st' = \<lparr>gridSize = 14, cell = max 8 (min w h div 14), snake = [\<lparr>x = 7, y = 7\<rparr>, \<lparr>x = 6, y = 7\<rparr>],
              dir = \<lparr>x = 1, y = 0\<rparr>, nextDir = \<lparr>x = 1, y = 0\<rparr>, food = f, score = 0,
              tickMs = 170, grace = 0\<rparr>"
    by (auto simp: reset_def Let_def split: option.splits prod.splits)
  from randFood_sound[OF r] have "f \<notin> set [\<lparr>x = 7, y = 7\<rparr>, \<lparr>x = 6, y = 7\<rparr>]" by auto
  then show ?thesis by (simp add: st)
qed

lemma reset_returns:
  assumes "unitInterval random" "fair random (randomCalls p) 14"
  shows "\<exists>st' p'. reset random (Some (w, h)) p = Some (Inr (st', p')) \<and> inGrid 14 (food st')"
proof -
  have "int (card (set [\<lparr>x = 7, y = 7\<rparr>, \<lparr>x = 6, y = 7\<rparr>])) < 14 * 14" by simp
  from randFood_total[OF _ this assms] obtain f m where
    "randFood random (randomCalls p) 14 [\<lparr>x = 7, y = 7\<rparr>, \<lparr>x = 6, y = 7\<rparr>] = Some (f, m)" "inGrid 14 f"
    by auto
  then show ?thesis by (simp add: reset_def Let_def)
qed



subsection \<open>The food stays inside the grid and off the snake\<close>

lemma randFood_result_inGrid:
  assumes "randFood random n N body = Some (f, m)" "unitInterval random" "0 < N"
  shows "inGrid N f \<and> f \<notin> set body"
proof -
  from randFood_sound[OF assms(1)] obtain k where "f = sample random (n + 2 * k) N" "f \<notin> set body"
    by auto
  then show ?thesis using sample_inGrid[OF assms(2,3)] by simp
qed

lemma tick_preserves_food:
  assumes g: "gridSize st = 14" and fi: "inGrid 14 (food st)" and fs: "food st \<notin> set (snake st)"
    and u: "unitInterval random"
    and t: "tick random now st p = Some (Inr (fl, st', p'))"
  shows "gridSize st' = 14 \<and> inGrid 14 (food st') \<and> food st' \<notin> set (snake st')"
proof -
  from tick_returns_nonempty[OF t] obtain s0 r where s: "snake st = s0 # r" by blast
  have rf: "inGrid 14 f \<and> f \<notin> set body" if "randFood random n 14 body = Some (f, m)" for n body f m
    using randFood_result_inGrid[OF that u] by simp
  show ?thesis
    using t g fi fs unfolding tick_cases[OF s]
    by (auto simp: Let_def commitDir_fields split: if_splits option.splits
        dest: in_set_butlastD rf)
qed

lemma reset_food:
  assumes "reset random canvas p = Some (Inr (st', p'))" "unitInterval random"
  shows "inGrid 14 (food st')"
proof -
  from assms(1) obtain f n where
    r: "randFood random (randomCalls p) 14 [\<lparr>x = 7, y = 7\<rparr>, \<lparr>x = 6, y = 7\<rparr>] = Some (f, n)"
    and "food st' = f"
    by (auto simp: reset_def Let_def split: option.splits prod.splits)
  with randFood_result_inGrid[OF r assms(2)] show ?thesis by simp
qed

lemma reachable_food:
  "reachable random stateRef p \<Longrightarrow> unitInterval random \<Longrightarrow> stateRef = Some st \<Longrightarrow>
     gridSize st = 14 \<and> inGrid 14 (food st) \<and> food st \<notin> set (snake st)"
proof (induction arbitrary: st rule: reachable.induct)
  case (mount p)
  then show ?case by simp
next
  case (restart stateRef p canvas st' p')
  then show ?case using reset_result[OF restart(2)] reset_food[OF restart(2)] by auto
next
  case (resize stateRef p target)
  then show ?case by (auto simp: resizeCanvas_def split: option.splits)
next
  case (key stateRef p code)
  then show ?case by (auto simp: onKey_def split: option.splits if_splits)
next
  case (touchStart stateRef p touch)
  then show ?case by simp
next
  case (touchEnd stateRef p touch stateRef' p')
  then show ?case
    by (auto simp: handleTouchEnd_def Let_def split: option.splits if_splits prod.splits)
next
  case (idle stateRef p ts)
  then show ?case by simp
next
  case (decay st0 p dt ts)
  then show ?case by auto
next
  case (ticked st0 p now fl st' p')
  from ticked.IH[OF ticked.prems(1) refl]
  have "gridSize st0 = 14" "inGrid 14 (food st0)" "food st0 \<notin> set (snake st0)" by simp_all
  from tick_preserves_food[OF this ticked.prems(1) ticked.hyps(3)] ticked.prems(2)
  show ?case by simp
qed

subsection \<open>A frame stays within the reachable states\<close>



subsection \<open>The first reset and the first tick of an example run\<close>

lemma example_reset:
  "reset (scan 14) (Some (280, 300)) examplePage =
     Some (Inr (exampleState\<lparr>food := \<lparr>x = 0, y = 0\<rparr>\<rparr>, examplePage\<lparr>randomCalls := 2\<rparr>))"
proof -
  have r: "randFood (scan 14) 0 14 [\<lparr>x = 7, y = 7\<rparr>, \<lparr>x = 6, y = 7\<rparr>] = Some (\<lparr>x = 0, y = 0\<rparr>, 2)"
    by (subst randFood.simps) (simp add: sample_def scan_def EQ_def Let_def)
  show ?thesis by (simp add: reset_def Let_def examplePage_def exampleState_def r)
qed



subsection \<open>Reversing inputs\<close>

lemma onKey_reversal:
  "getDirForCode code = Some d \<Longrightarrow> opposite d (dir st) \<Longrightarrow>
   onKey code (Some st) = Some (st\<lparr>grace := 250\<rparr>)"
  by (simp add: onKey_def)

lemma handleTouchEnd_reversal:
  "touchStartRef p = Some (startX, startY) \<Longrightarrow>
   30 \<le> max \<bar>clientX - startX\<bar> \<bar>clientY - startY\<bar> \<Longrightarrow>
   opposite (swipeDirection (clientX - startX) (clientY - startY)) (dir st) \<Longrightarrow>
   handleTouchEnd (Some (clientX, clientY)) (Some st) p = (Some st, p\<lparr>touchStartRef := None\<rparr>)"
  by (simp add: handleTouchEnd_def Let_def)

section \<open>The claims\<close>

subsection \<open>C1: a reversing key press still resets the grace timer\<close>

text \<open>
  Claim C1 says that a recognised direction input that reverses the current direction
  changes neither the pending direction nor the grace timer. The touch handler does
  that (\<open>handleTouchEnd_reversal\<close>); the keyboard handler sets the grace timer to 250ms
  for every recognised key, reversing or not (\<open>onKey_reversal\<close>). On the example state,
  which heads right with no grace left, ArrowLeft leaves the pending direction alone and
  sets the grace timer to 250, while a swipe of 100 units to the left leaves the game
  state as it is.
\<close>

theorem onKey_reversal_resets_grace:
  "getDirForCode ''ArrowLeft'' = Some \<lparr>x = -1, y = 0\<rparr>
   \<and> opposite \<lparr>x = -1, y = 0\<rparr> (dir exampleState)
   \<and> grace exampleState = 0
   \<and> onKey ''ArrowLeft'' (Some exampleState) = Some (exampleState\<lparr>grace := 250\<rparr>)
   \<and> handleTouchEnd (Some (20, 100)) (Some exampleState) (examplePage\<lparr>touchStartRef := Some (120, 100)\<rparr>)
       = (Some exampleState, examplePage)"
  by (simp add: getDirForCode_def DIRS_def opposite_def exampleState_def examplePage_def
      onKey_def handleTouchEnd_def swipeDirection_def Let_def)

subsection \<open>C2: a collision ends the game unless the grace timer is running\<close>

text \<open>
  Claim C2. In a tick whose candidate head hits the wall or the snake: if the remaining
  grace is at most 0, the tick leaves the loop with the game over and not running, the
  best score is the maximum of the previous best and the score, and a later frame runs no
  tick; if the remaining grace is positive, the tick leaves the loop with the game still
  going, the grace timer at 0 and the snake as it was.
\<close>

theorem tick_collision_grace:
  assumes "snake st = s0 # r" and "h = add s0 (dir (commitDir st))"
    and "hitWall (commitDir st) h \<or> hitSelf (commitDir st) h"
  shows "(grace st \<le> 0 \<longrightarrow>
           (\<exists>st' p'. tick random now st p = Some (Inr (Break, st', p'))
              \<and> gameOver p' \<and> \<not> running p' \<and> best p' = max (best p) (of_int (score st))
              \<and> snake st' = snake st
              \<and> (\<forall>random' now' ts. step random' now' True ts (Some st') p'
                     = Some (Inr (Some st', p'\<lparr>lastTsRef := ts\<rparr>)))))
       \<and> (0 < grace st \<longrightarrow>
           (\<exists>st' p'. tick random now st p = Some (Inr (Break, st', p'))
              \<and> gameOver p' = gameOver p \<and> running p' = running p \<and> best p' = best p
              \<and> grace st' = 0 \<and> snake st' = snake st))"
  using assms(2,3)
  by (auto simp add: tick_cases[OF assms(1)] Let_def commitDir_fields step_stopped)

text \<open>
  The two scenarios of the specification: the head at \<open>x = 0\<close> moving left with no grace
  left, and the head moving into its own neck with 120ms of grace.
\<close>

theorem tick_collision_grace_witness:
  "(\<exists>st' p'. tick (scan 14) 5000
        (exampleState\<lparr>snake := [\<lparr>x = 0, y = 7\<rparr>, \<lparr>x = 1, y = 7\<rparr>], dir := \<lparr>x = -1, y = 0\<rparr>,
           nextDir := \<lparr>x = -1, y = 0\<rparr>, score := 3\<rparr>)
        (examplePage\<lparr>best := 2\<rparr>) = Some (Inr (Break, st', p'))
      \<and> gameOver p' \<and> \<not> running p' \<and> best p' = 3
      \<and> snake st' = [\<lparr>x = 0, y = 7\<rparr>, \<lparr>x = 1, y = 7\<rparr>]
      \<and> step (scan 14) 6000 True 5016 (Some st') p' = Some (Inr (Some st', p'\<lparr>lastTsRef := 5016\<rparr>)))
   \<and> (\<exists>st' p'. tick (scan 14) 5000
        (exampleState\<lparr>dir := \<lparr>x = -1, y = 0\<rparr>, nextDir := \<lparr>x = -1, y = 0\<rparr>, grace := 120\<rparr>)
        examplePage = Some (Inr (Break, st', p'))
      \<and> \<not> gameOver p' \<and> running p' \<and> best p' = 0 \<and> grace st' = 0
      \<and> snake st' = [\<lparr>x = 7, y = 7\<rparr>, \<lparr>x = 6, y = 7\<rparr>])"
proof -
  let ?wall = "exampleState\<lparr>snake := [\<lparr>x = 0, y = 7\<rparr>, \<lparr>x = 1, y = 7\<rparr>], dir := \<lparr>x = -1, y = 0\<rparr>,
           nextDir := \<lparr>x = -1, y = 0\<rparr>, score := 3\<rparr>"
  let ?neck = "exampleState\<lparr>dir := \<lparr>x = -1, y = 0\<rparr>, nextDir := \<lparr>x = -1, y = 0\<rparr>, grace := 120\<rparr>"
  have w1: "snake ?wall = \<lparr>x = 0, y = 7\<rparr> # [\<lparr>x = 1, y = 7\<rparr>]" by simp
  have w2: "\<lparr>x = -1, y = 7\<rparr> = add \<lparr>x = 0, y = 7\<rparr> (dir (commitDir ?wall))"
    by (simp add: commitDir_def add_def opposite_def)
  have w3: "hitWall (commitDir ?wall) \<lparr>x = -1, y = 7\<rparr> \<or> hitSelf (commitDir ?wall) \<lparr>x = -1, y = 7\<rparr>"
    by (simp add: hitWall_def)
  have w4: "grace ?wall \<le> 0" by (simp add: exampleState_def)
  have n1: "snake ?neck = \<lparr>x = 7, y = 7\<rparr> # [\<lparr>x = 6, y = 7\<rparr>]" by (simp add: exampleState_def)
  have n2: "\<lparr>x = 6, y = 7\<rparr> = add \<lparr>x = 7, y = 7\<rparr> (dir (commitDir ?neck))"
    by (simp add: commitDir_def add_def opposite_def)
  have n3: "hitWall (commitDir ?neck) \<lparr>x = 6, y = 7\<rparr> \<or> hitSelf (commitDir ?neck) \<lparr>x = 6, y = 7\<rparr>"
    by (simp add: hitSelf_def commitDir_def opposite_def EQ_def exampleState_def)
  have n4: "0 < grace ?neck" by simp
  from tick_collision_grace [OF w1 w2 w3, of "scan 14" 5000 "examplePage\<lparr>best := 2\<rparr>"] w4
  have "\<exists>st' p'. tick (scan 14) 5000 ?wall (examplePage\<lparr>best := 2\<rparr>) = Some (Inr (Break, st', p'))
      \<and> gameOver p' \<and> \<not> running p' \<and> best p' = 3
      \<and> snake st' = [\<lparr>x = 0, y = 7\<rparr>, \<lparr>x = 1, y = 7\<rparr>]
      \<and> (\<forall>random' now' ts. step random' now' True ts (Some st') p'
             = Some (Inr (Some st', p'\<lparr>lastTsRef := ts\<rparr>)))"
    by (simp add: examplePage_def)
  then have a: "\<exists>st' p'. tick (scan 14) 5000 ?wall (examplePage\<lparr>best := 2\<rparr>) = Some (Inr (Break, st', p'))
      \<and> gameOver p' \<and> \<not> running p' \<and> best p' = 3
      \<and> snake st' = [\<lparr>x = 0, y = 7\<rparr>, \<lparr>x = 1, y = 7\<rparr>]
      \<and> step (scan 14) 6000 True 5016 (Some st') p' = Some (Inr (Some st', p'\<lparr>lastTsRef := 5016\<rparr>))"
    by blast
  from tick_collision_grace [OF n1 n2 n3, of "scan 14" 5000 examplePage] n4
  have b: "\<exists>st' p'. tick (scan 14) 5000 ?neck examplePage = Some (Inr (Break, st', p'))
      \<and> \<not> gameOver p' \<and> running p' \<and> best p' = 0 \<and> grace st' = 0
      \<and> snake st' = [\<lparr>x = 7, y = 7\<rparr>, \<lparr>x = 6, y = 7\<rparr>]"
    by (simp add: examplePage_def exampleState_def)
  from a b show ?thesis by blast
qed

subsection \<open>C3: the collision test reads the snake before the move\<close>

text \<open>
  Claim C3. The wall test holds of a candidate head iff one of its coordinates lies
  outside \<open>[0, N)\<close>; the self test holds iff the candidate is a cell of the snake, the
  last cell included, although the move would vacate it. The tick applies both tests to
  the snake as it is before the move: it leaves the loop iff the candidate head is
  outside the grid or on a cell of that snake.
\<close>

theorem collision_test_pre_move:
  "(hitWall st c \<longleftrightarrow> \<not> (0 \<le> x c \<and> x c < gridSize st \<and> 0 \<le> y c \<and> y c < gridSize st))
   \<and> (hitSelf st c \<longleftrightarrow> c \<in> set (snake st))
   \<and> (snake st \<noteq> [] \<longrightarrow> hitSelf st (last (snake st)))
   \<and> (\<forall>s0 r fl st' p'. snake st = s0 # r \<and> tick random now st p = Some (Inr (fl, st', p'))
         \<longrightarrow> (fl = Break \<longleftrightarrow>
               \<not> inGrid (gridSize st) (add s0 (dir (commitDir st)))
               \<or> add s0 (dir (commitDir st)) \<in> set (snake st)))"
proof -
  have 1: "hitWall st c \<longleftrightarrow> \<not> (0 \<le> x c \<and> x c < gridSize st \<and> 0 \<le> y c \<and> y c < gridSize st)"
    by (auto simp: hitWall_def)
  have 2: "hitSelf st c \<longleftrightarrow> c \<in> set (snake st)" by (rule hitSelf_iff)
  have 3: "snake st \<noteq> [] \<longrightarrow> hitSelf st (last (snake st))" by (simp add: hitSelf_iff)
  have 4: "fl = Break \<longleftrightarrow> \<not> inGrid (gridSize st) (add s0 (dir (commitDir st)))
               \<or> add s0 (dir (commitDir st)) \<in> set (snake st)"
    if "snake st = s0 # r" "tick random now st p = Some (Inr (fl, st', p'))" for s0 r fl st' p'
    using that(2) unfolding tick_cases[OF that(1)]
    by (auto simp: Let_def hitWall_iff hitSelf_iff commitDir_fields split: if_splits option.splits)
  show ?thesis using 1 2 3 4 by blast
qed

text \<open>
  On the example state, and on a snake of four cells in a square whose head turns into
  the cell of its own tail: the tick ends the game there.
\<close>

theorem collision_test_pre_move_witness:
  "hitWall exampleState \<lparr>x = 14, y = 3\<rparr> \<and> \<not> hitWall exampleState \<lparr>x = 13, y = 0\<rparr>
   \<and> hitSelf exampleState \<lparr>x = 6, y = 7\<rparr> \<and> \<not> hitSelf exampleState \<lparr>x = 8, y = 7\<rparr>
   \<and> snake exampleState \<noteq> [] \<and> hitSelf exampleState (last (snake exampleState))
   \<and> tick (scan 14) 5000
        (exampleState\<lparr>snake := [\<lparr>x = 1, y = 1\<rparr>, \<lparr>x = 1, y = 0\<rparr>, \<lparr>x = 0, y = 0\<rparr>, \<lparr>x = 0, y = 1\<rparr>],
           dir := \<lparr>x = -1, y = 0\<rparr>, nextDir := \<lparr>x = -1, y = 0\<rparr>\<rparr>) examplePage
      = Some (Inr (Break,
          exampleState\<lparr>snake := [\<lparr>x = 1, y = 1\<rparr>, \<lparr>x = 1, y = 0\<rparr>, \<lparr>x = 0, y = 0\<rparr>, \<lparr>x = 0, y = 1\<rparr>],
            dir := \<lparr>x = -1, y = 0\<rparr>, nextDir := \<lparr>x = -1, y = 0\<rparr>\<rparr>,
          examplePage\<lparr>accRef := 0, gameOver := True, running := False,
            gameOverAtRef := Some 5000\<rparr>))
   \<and> add \<lparr>x = 1, y = 1\<rparr> \<lparr>x = -1, y = 0\<rparr> = \<lparr>x = 0, y = 1\<rparr>"
proof -
  let ?loop = "exampleState\<lparr>snake := [\<lparr>x = 1, y = 1\<rparr>, \<lparr>x = 1, y = 0\<rparr>, \<lparr>x = 0, y = 0\<rparr>, \<lparr>x = 0, y = 1\<rparr>],
           dir := \<lparr>x = -1, y = 0\<rparr>, nextDir := \<lparr>x = -1, y = 0\<rparr>\<rparr>"
  have s: "snake ?loop = \<lparr>x = 1, y = 1\<rparr> # [\<lparr>x = 1, y = 0\<rparr>, \<lparr>x = 0, y = 0\<rparr>, \<lparr>x = 0, y = 1\<rparr>]" by simp
  have t: "tick (scan 14) 5000 ?loop examplePage
      = Some (Inr (Break, ?loop,
          examplePage\<lparr>accRef := 0, gameOver := True, running := False,
            gameOverAtRef := Some 5000\<rparr>))"
    unfolding tick_cases[OF s]
    by (simp add: exampleState_def examplePage_def commitDir_def opposite_def add_def
        hitWall_def hitSelf_def EQ_def)
  from collision_test_pre_move [of exampleState "\<lparr>x = 14, y = 3\<rparr>" "scan 14" 5000 examplePage]
    collision_test_pre_move [of exampleState "\<lparr>x = 13, y = 0\<rparr>" "scan 14" 5000 examplePage]
    collision_test_pre_move [of exampleState "\<lparr>x = 6, y = 7\<rparr>" "scan 14" 5000 examplePage]
    collision_test_pre_move [of exampleState "\<lparr>x = 8, y = 7\<rparr>" "scan 14" 5000 examplePage]
  have "hitWall exampleState \<lparr>x = 14, y = 3\<rparr> \<and> \<not> hitWall exampleState \<lparr>x = 13, y = 0\<rparr>
   \<and> hitSelf exampleState \<lparr>x = 6, y = 7\<rparr> \<and> \<not> hitSelf exampleState \<lparr>x = 8, y = 7\<rparr>
   \<and> snake exampleState \<noteq> [] \<and> hitSelf exampleState (last (snake exampleState))"
    by (simp add: exampleState_def)
  then show ?thesis using t by (simp add: add_def)
qed

subsection \<open>C4: growth, movement and collision\<close>

text \<open>
  Claim C4. Let \<open>h\<close> be the candidate head of a tick. If \<open>h\<close> collides, the snake and
  the score stay as they are. Otherwise, if \<open>h\<close> is the food cell, the new snake is \<open>h\<close>
  in front of the old one, one cell longer, and the score grows by 1; if not, the new
  snake is \<open>h\<close> in front of the old one without its last cell, of the same length. The
  tick returns in the first and the last case, and in the food case whenever the random
  source is fair and a free cell is left. A food cell inside the grid and off the snake
  is never a collision, and in every reachable state the food is such a cell, so a
  candidate head on the food always grows the snake there. In particular the snake
  (7,7),(6,7) moving right onto food at (8,7) becomes (8,7),(7,7),(6,7) with score 1.
\<close>

theorem tick_snake_length:
  assumes "snake st = s0 # r" and "h = add s0 (dir (commitDir st))"
  shows
  "(\<forall>fl st' p'. tick random now st p = Some (Inr (fl, st', p')) \<longrightarrow>
      (if hitWall (commitDir st) h \<or> hitSelf (commitDir st) h
       then snake st' = snake st \<and> score st' = score st
       else if h = food st
       then snake st' = h # snake st \<and> length (snake st') = length (snake st) + 1
            \<and> score st' = score st + 1
       else snake st' = h # butlast (snake st) \<and> length (snake st') = length (snake st)
            \<and> score st' = score st))
   \<and> (hitWall (commitDir st) h \<or> hitSelf (commitDir st) h \<or> h \<noteq> food st
        \<longrightarrow> (\<exists>fl st' p'. tick random now st p = Some (Inr (fl, st', p'))))
   \<and> (0 < gridSize st \<and> int (card (set (h # snake st))) < gridSize st * gridSize st
        \<and> unitInterval random \<and> fair random (randomCalls p) (gridSize st)
        \<longrightarrow> (\<exists>fl st' p'. tick random now st p = Some (Inr (fl, st', p'))))
   \<and> (h = food st \<and> inGrid (gridSize st) (food st) \<and> food st \<notin> set (snake st)
        \<longrightarrow> \<not> (hitWall (commitDir st) h \<or> hitSelf (commitDir st) h))
   \<and> (reachable random (Some st) p \<and> unitInterval random
        \<longrightarrow> inGrid (gridSize st) (food st) \<and> food st \<notin> set (snake st))"
proof -
  have 1: "if hitWall (commitDir st) h \<or> hitSelf (commitDir st) h
       then snake st' = snake st \<and> score st' = score st
       else if h = food st
       then snake st' = h # snake st \<and> length (snake st') = length (snake st) + 1
            \<and> score st' = score st + 1
       else snake st' = h # butlast (snake st) \<and> length (snake st') = length (snake st)
            \<and> score st' = score st"
    if "tick random now st p = Some (Inr (fl, st', p'))" for fl st' p'
    using that assms(2) unfolding tick_cases[OF assms(1)]
    by (auto simp: Let_def commitDir_fields assms(1) split: if_splits option.splits)
  have 2: "hitWall (commitDir st) h \<or> hitSelf (commitDir st) h \<or> h \<noteq> food st
        \<longrightarrow> (\<exists>fl st' p'. tick random now st p = Some (Inr (fl, st', p')))"
    using tick_total[OF assms] by blast
  have 3: "0 < gridSize st \<and> int (card (set (h # snake st))) < gridSize st * gridSize st
        \<and> unitInterval random \<and> fair random (randomCalls p) (gridSize st)
        \<longrightarrow> (\<exists>fl st' p'. tick random now st p = Some (Inr (fl, st', p')))"
    using tick_total[OF assms] by blast
  have 4: "h = food st \<and> inGrid (gridSize st) (food st) \<and> food st \<notin> set (snake st)
        \<longrightarrow> \<not> (hitWall (commitDir st) h \<or> hitSelf (commitDir st) h)"
    by (auto simp: hitWall_iff hitSelf_iff commitDir_fields)
  have 5: "reachable random (Some st) p \<and> unitInterval random
        \<longrightarrow> inGrid (gridSize st) (food st) \<and> food st \<notin> set (snake st)"
    using reachable_food[of random "Some st" p st] by auto
  show ?thesis using 1 2 3 4 5 by blast
qed

text \<open>The scenario of the specification, and the same snake with the food elsewhere.\<close>

theorem tick_snake_length_witness:
  "snake exampleState = [\<lparr>x = 7, y = 7\<rparr>, \<lparr>x = 6, y = 7\<rparr>] \<and> dir exampleState = \<lparr>x = 1, y = 0\<rparr>
   \<and> food exampleState = \<lparr>x = 8, y = 7\<rparr> \<and> score exampleState = 0
   \<and> (\<exists>st' p'. tick (scan 14) 0 exampleState examplePage = Some (Inr (Continue, st', p'))
        \<and> snake st' = [\<lparr>x = 8, y = 7\<rparr>, \<lparr>x = 7, y = 7\<rparr>, \<lparr>x = 6, y = 7\<rparr>] \<and> score st' = 1)
   \<and> (\<exists>st' p'. tick (scan 14) 0 (exampleState\<lparr>food := \<lparr>x = 3, y = 3\<rparr>\<rparr>) examplePage
          = Some (Inr (Continue, st', p'))
        \<and> snake st' = [\<lparr>x = 8, y = 7\<rparr>, \<lparr>x = 7, y = 7\<rparr>] \<and> score st' = 0)"
proof -
  let ?far = "exampleState\<lparr>food := \<lparr>x = 3, y = 3\<rparr>\<rparr>"
  have s: "snake exampleState = \<lparr>x = 7, y = 7\<rparr> # [\<lparr>x = 6, y = 7\<rparr>]" by (simp add: exampleState_def)
  have h: "\<lparr>x = 8, y = 7\<rparr> = add \<lparr>x = 7, y = 7\<rparr> (dir (commitDir exampleState))"
    by (simp add: exampleState_def commitDir_def opposite_def add_def)
  have s': "snake ?far = \<lparr>x = 7, y = 7\<rparr> # [\<lparr>x = 6, y = 7\<rparr>]" by (simp add: exampleState_def)
  have h': "\<lparr>x = 8, y = 7\<rparr> = add \<lparr>x = 7, y = 7\<rparr> (dir (commitDir ?far))"
    by (simp add: exampleState_def commitDir_def opposite_def add_def)
  have nc: "\<not> (hitWall (commitDir exampleState) \<lparr>x = 8, y = 7\<rparr> \<or> hitSelf (commitDir exampleState) \<lparr>x = 8, y = 7\<rparr>)"
    by (simp add: exampleState_def commitDir_def opposite_def hitWall_def hitSelf_def EQ_def)
  have nc': "\<not> (hitWall (commitDir ?far) \<lparr>x = 8, y = 7\<rparr> \<or> hitSelf (commitDir ?far) \<lparr>x = 8, y = 7\<rparr>)"
    by (simp add: exampleState_def commitDir_def opposite_def hitWall_def hitSelf_def EQ_def)
  have fair: "0 < gridSize exampleState
      \<and> int (card (set (\<lparr>x = 8, y = 7\<rparr> # snake exampleState))) < gridSize exampleState * gridSize exampleState
      \<and> unitInterval (scan 14) \<and> fair (scan 14) (randomCalls examplePage) (gridSize exampleState)"
    using scan_unitInterval[of 14] scan_fair[of 14] by (simp add: exampleState_def examplePage_def)
  note A = tick_snake_length [OF s h, of "scan 14" 0 examplePage]
  note B = tick_snake_length [OF s' h', of "scan 14" 0 examplePage]
  from A fair obtain fl st' p' where t: "tick (scan 14) 0 exampleState examplePage = Some (Inr (fl, st', p'))"
    by blast
  from A t nc have "snake st' = \<lparr>x = 8, y = 7\<rparr> # snake exampleState \<and> score st' = score exampleState + 1"
    by (simp add: exampleState_def)
  moreover from t have "fl = Continue" by (simp add: example_tick)
  ultimately have a: "\<exists>st' p'. tick (scan 14) 0 exampleState examplePage = Some (Inr (Continue, st', p'))
        \<and> snake st' = [\<lparr>x = 8, y = 7\<rparr>, \<lparr>x = 7, y = 7\<rparr>, \<lparr>x = 6, y = 7\<rparr>] \<and> score st' = 1"
    using t by (simp add: exampleState_def)
  have t': "tick (scan 14) 0 ?far examplePage = Some (Inr (Continue,
       ?far\<lparr>snake := [\<lparr>x = 8, y = 7\<rparr>, \<lparr>x = 7, y = 7\<rparr>]\<rparr>, examplePage\<lparr>accRef := 0\<rparr>))"
    unfolding tick_cases[OF s']
    by (simp add: exampleState_def examplePage_def commitDir_def opposite_def add_def
        hitWall_def hitSelf_def EQ_def)
  from B t' nc' have "snake (?far\<lparr>snake := [\<lparr>x = 8, y = 7\<rparr>, \<lparr>x = 7, y = 7\<rparr>]\<rparr>) = \<lparr>x = 8, y = 7\<rparr> # butlast (snake ?far)
      \<and> score (?far\<lparr>snake := [\<lparr>x = 8, y = 7\<rparr>, \<lparr>x = 7, y = 7\<rparr>]\<rparr>) = score ?far"
    by (simp add: exampleState_def)
  with t' have b: "\<exists>st' p'. tick (scan 14) 0 ?far examplePage = Some (Inr (Continue, st', p'))
        \<and> snake st' = [\<lparr>x = 8, y = 7\<rparr>, \<lparr>x = 7, y = 7\<rparr>] \<and> score st' = 0"
    by (simp add: exampleState_def)
  from a b show ?thesis by (simp add: exampleState_def)
qed

subsection \<open>C5: the direction commit never reverses\<close>

text \<open>
  Claim C5. At the commit step of a tick, a pending direction that is the exact opposite
  of the current direction leaves the current direction as it is; any other pending
  direction becomes the current one. The direction after the commit is therefore never
  the opposite of the direction before it (for a direction other than the zero vector,
  which is its own opposite), and it is the direction of the state the tick returns.
\<close>

theorem commitDir_no_reversal:
  "(opposite (nextDir st) (dir st) \<longrightarrow> dir (commitDir st) = dir st)
   \<and> (\<not> opposite (nextDir st) (dir st) \<longrightarrow> dir (commitDir st) = nextDir st)
   \<and> (dir st \<noteq> \<lparr>x = 0, y = 0\<rparr> \<longrightarrow> \<not> opposite (dir (commitDir st)) (dir st))
   \<and> (\<forall>fl st' p'. tick random now st p = Some (Inr (fl, st', p')) \<longrightarrow> dir st' = dir (commitDir st))"
proof -
  have 3: "dir st \<noteq> \<lparr>x = 0, y = 0\<rparr> \<longrightarrow> \<not> opposite (dir (commitDir st)) (dir st)"
    by (cases "dir st") (auto simp: commitDir_def opposite_def)
  have 4: "dir st' = dir (commitDir st)" if t: "tick random now st p = Some (Inr (fl, st', p'))" for fl st' p'
  proof -
    from tick_returns_nonempty[OF t] obtain s0 r where s: "snake st = s0 # r" by blast
    show ?thesis using t unfolding tick_cases[OF s]
      by (auto simp: Let_def split: if_splits option.splits)
  qed
  show ?thesis using 3 4 by (simp add: commitDir_def)
qed

theorem commitDir_no_reversal_witness:
  "opposite (nextDir (exampleState\<lparr>nextDir := \<lparr>x = -1, y = 0\<rparr>\<rparr>)) (dir exampleState)
   \<and> dir (commitDir (exampleState\<lparr>nextDir := \<lparr>x = -1, y = 0\<rparr>\<rparr>)) = \<lparr>x = 1, y = 0\<rparr>
   \<and> \<not> opposite (nextDir (exampleState\<lparr>nextDir := \<lparr>x = 0, y = -1\<rparr>\<rparr>)) (dir exampleState)
   \<and> dir (commitDir (exampleState\<lparr>nextDir := \<lparr>x = 0, y = -1\<rparr>\<rparr>)) = \<lparr>x = 0, y = -1\<rparr>
   \<and> \<not> opposite (dir (commitDir (exampleState\<lparr>nextDir := \<lparr>x = 0, y = -1\<rparr>\<rparr>))) (dir exampleState)
   \<and> tick (scan 14) 0 exampleState examplePage =
        Some (Inr (Continue,
          exampleState\<lparr>snake := [\<lparr>x = 8, y = 7\<rparr>, \<lparr>x = 7, y = 7\<rparr>, \<lparr>x = 6, y = 7\<rparr>], score := 1,
            food := \<lparr>x = 0, y = 0\<rparr>, tickMs := 167\<rparr>,
          examplePage\<lparr>accRef := 0, scoreState := 1, randomCalls := 2\<rparr>))
   \<and> dir (commitDir exampleState) = \<lparr>x = 1, y = 0\<rparr>"
  using commitDir_no_reversal [of "exampleState\<lparr>nextDir := \<lparr>x = -1, y = 0\<rparr>\<rparr>" "scan 14" 0 examplePage]
    commitDir_no_reversal [of "exampleState\<lparr>nextDir := \<lparr>x = 0, y = -1\<rparr>\<rparr>" "scan 14" 0 examplePage]
    commitDir_no_reversal [of exampleState "scan 14" 0 examplePage]
    example_tick [of 0]
  by (simp add: exampleState_def opposite_def)

subsection \<open>C6: the food spawner returns a free cell of the grid\<close>

text \<open>
  Claim C6. For a grid dimension \<open>N > 0\<close> and a snake that occupies fewer than \<open>N\<^sup>2\<close>
  cells, \<open>randFood\<close> returns, and the cell it returns lies in the grid and on no cell of
  the snake. The random source is taken to give results in \<open>[0, 1)\<close> and to be fair.
\<close>

theorem randFood_terminates_free:
  assumes "0 < N" and "int (card (set body)) < N * N"
    and "unitInterval random" and "fair random n N"
  shows "\<exists>f m. randFood random n N body = Some (f, m) \<and> inGrid N f \<and> \<not> some (\<lambda>s. EQ s f) body"
  using randFood_total[OF assms] by (simp add: some_iff EQ_iff)

text \<open>The scanning source on the 14 by 14 grid: the first two cells it offers are taken.\<close>

theorem randFood_terminates_free_witness:
  "(0::int) < 14 \<and> int (card (set [\<lparr>x = 0, y = 0\<rparr>, \<lparr>x = 1, y = 0\<rparr>])) < 14 * 14
   \<and> unitInterval (scan 14) \<and> fair (scan 14) 0 14
   \<and> randFood (scan 14) 0 14 [\<lparr>x = 0, y = 0\<rparr>, \<lparr>x = 1, y = 0\<rparr>] = Some (\<lparr>x = 2, y = 0\<rparr>, 6)
   \<and> (\<exists>f m. randFood (scan 14) 0 14 [\<lparr>x = 0, y = 0\<rparr>, \<lparr>x = 1, y = 0\<rparr>] = Some (f, m)
         \<and> inGrid 14 f \<and> \<not> some (\<lambda>s. EQ s f) [\<lparr>x = 0, y = 0\<rparr>, \<lparr>x = 1, y = 0\<rparr>])"
proof -
  have h1: "(0::int) < 14" by simp
  have h2: "int (card (set [\<lparr>x = 0, y = 0\<rparr>, \<lparr>x = 1, y = 0\<rparr>])) < 14 * 14" by simp
  have h3: "unitInterval (scan 14)" by (rule scan_unitInterval) simp
  have h4: "fair (scan 14) 0 14" using scan_fair[of 14] by simp
  have e: "randFood (scan 14) 0 14 [\<lparr>x = 0, y = 0\<rparr>, \<lparr>x = 1, y = 0\<rparr>] = Some (\<lparr>x = 2, y = 0\<rparr>, 6)"
    apply (subst randFood.simps, simp add: sample_def scan_def EQ_def Let_def)
    apply (subst randFood.simps, simp add: sample_def scan_def EQ_def Let_def)
    apply (subst randFood.simps, simp add: sample_def scan_def EQ_def Let_def)
    done
  from randFood_terminates_free[OF h1 h2 h3 h4] h1 h2 h3 h4 e show ?thesis by blast
qed

subsection \<open>C7: the speed curve\<close>

text \<open>
  Claim C7. The tick interval set when food is eaten is the linear interpolation from
  170ms at score 0 down to 80ms at score 30, stays at 80ms from score 30 on (170ms at
  score 0, 125ms at score 15), and never grows as the score grows. A tick either leaves
  score and interval alone or adds 1 to the score and sets the interval to the curve's
  value at the new score.
\<close>

theorem speedCurve_linear_clamped:
  "speedCurve 0 = 170 \<and> speedCurve 15 = 125
   \<and> (30 \<le> sc \<longrightarrow> speedCurve sc = 80)
   \<and> (0 \<le> sc \<and> sc \<le> 30 \<longrightarrow> of_int (speedCurve sc) = (170::rat) - (170 - 80) * of_int sc / 30)
   \<and> (a \<le> b \<longrightarrow> speedCurve b \<le> speedCurve a)
   \<and> (\<forall>fl st' p'. tick random now st p = Some (Inr (fl, st', p')) \<longrightarrow>
         (score st' = score st \<and> tickMs st' = tickMs st)
         \<or> (score st' = score st + 1 \<and> tickMs st' = speedCurve (score st')))"
proof -
  have t: "(score st' = score st \<and> tickMs st' = tickMs st)
         \<or> (score st' = score st + 1 \<and> tickMs st' = speedCurve (score st'))"
    if t: "tick random now st p = Some (Inr (fl, st', p'))" for fl st' p'
  proof -
    from tick_returns_nonempty[OF t] obtain s0 r where s: "snake st = s0 # r" by blast
    show ?thesis using t unfolding tick_cases[OF s]
      by (auto simp: Let_def commitDir_fields split: if_splits option.splits)
  qed
  have "speedCurve 0 = 170 \<and> speedCurve 15 = 125
   \<and> (30 \<le> sc \<longrightarrow> speedCurve sc = 80)
   \<and> (0 \<le> sc \<and> sc \<le> 30 \<longrightarrow> of_int (speedCurve sc) = (170::rat) - (170 - 80) * of_int sc / 30)
   \<and> (a \<le> b \<longrightarrow> speedCurve b \<le> speedCurve a)"
    by (auto simp: speedCurve_eq)
  then show ?thesis using t by blast
qed

theorem speedCurve_linear_clamped_witness:
  "speedCurve 0 = 170 \<and> speedCurve 15 = 125 \<and> (30::int) \<le> 31 \<and> speedCurve 31 = 80
   \<and> of_int (speedCurve 10) = (170::rat) - (170 - 80) * of_int 10 / 30
   \<and> (7::int) \<le> 12 \<and> speedCurve 12 \<le> speedCurve 7
   \<and> tick (scan 14) 0 exampleState examplePage =
        Some (Inr (Continue,
          exampleState\<lparr>snake := [\<lparr>x = 8, y = 7\<rparr>, \<lparr>x = 7, y = 7\<rparr>, \<lparr>x = 6, y = 7\<rparr>], score := 1,
            food := \<lparr>x = 0, y = 0\<rparr>, tickMs := 167\<rparr>,
          examplePage\<lparr>accRef := 0, scoreState := 1, randomCalls := 2\<rparr>))
   \<and> speedCurve 1 = 167"
  using speedCurve_linear_clamped [of 31 7 12 "scan 14" 0 exampleState examplePage]
    speedCurve_linear_clamped [of 10 7 12 "scan 14" 0 exampleState examplePage]
    example_tick [of 0]
  by (simp add: exampleState_def)

subsection \<open>C8: the invariant of the snake\<close>



subsection \<open>C9: the best score loaded at startup\<close>




subsection \<open>C10: reset creates the same initial configuration\<close>

text \<open>
  Claim C10. Whatever the page state before, a reset that returns gives a grid of
  dimension 14, the snake (7,7),(6,7), current and pending direction (1,0), score 0, a
  tick interval of 170ms, no grace and a food cell off the snake; with a canvas present
  and a fair random source it does return, and the food cell lies in the grid.
\<close>

theorem reset_initial_configuration:
  "(\<forall>st' p'. reset random canvas p = Some (Inr (st', p')) \<longrightarrow>
      gridSize st' = 14 \<and> snake st' = [\<lparr>x = 7, y = 7\<rparr>, \<lparr>x = 6, y = 7\<rparr>]
      \<and> dir st' = \<lparr>x = 1, y = 0\<rparr> \<and> nextDir st' = \<lparr>x = 1, y = 0\<rparr> \<and> score st' = 0
      \<and> tickMs st' = 170 \<and> grace st' = 0 \<and> \<not> some (\<lambda>s. EQ s (food st')) (snake st'))
   \<and> (unitInterval random \<and> fair random (randomCalls p) 14 \<longrightarrow>
        (\<exists>st' p'. reset random (Some (w, h)) p = Some (Inr (st', p')) \<and> inGrid 14 (food st')))"
proof -
  have 1: "gridSize st' = 14 \<and> snake st' = [\<lparr>x = 7, y = 7\<rparr>, \<lparr>x = 6, y = 7\<rparr>]
      \<and> dir st' = \<lparr>x = 1, y = 0\<rparr> \<and> nextDir st' = \<lparr>x = 1, y = 0\<rparr> \<and> score st' = 0
      \<and> tickMs st' = 170 \<and> grace st' = 0 \<and> \<not> some (\<lambda>s. EQ s (food st')) (snake st')"
    if "reset random canvas p = Some (Inr (st', p'))" for st' p'
    using reset_result[OF that] by (auto simp: some_iff EQ_iff)
  have 2: "unitInterval random \<and> fair random (randomCalls p) 14 \<longrightarrow>
        (\<exists>st' p'. reset random (Some (w, h)) p = Some (Inr (st', p')) \<and> inGrid 14 (food st'))"
    using reset_returns[of random p w h] by blast
  show ?thesis using 1 2 by blast
qed

text \<open>From the example page, and from a page that is in the game-over state.\<close>

theorem reset_initial_configuration_witness:
  "unitInterval (scan 14) \<and> fair (scan 14) (randomCalls examplePage) 14
   \<and> reset (scan 14) (Some (280, 300)) examplePage =
       Some (Inr (exampleState\<lparr>food := \<lparr>x = 0, y = 0\<rparr>\<rparr>, examplePage\<lparr>randomCalls := 2\<rparr>))
   \<and> (\<exists>st' p'. reset (scan 14) (Some (280, 300)) (examplePage\<lparr>gameOver := True, scoreState := 9\<rparr>)
          = Some (Inr (st', p'))
        \<and> gridSize st' = 14 \<and> snake st' = [\<lparr>x = 7, y = 7\<rparr>, \<lparr>x = 6, y = 7\<rparr>]
        \<and> dir st' = \<lparr>x = 1, y = 0\<rparr> \<and> nextDir st' = \<lparr>x = 1, y = 0\<rparr> \<and> score st' = 0
        \<and> tickMs st' = 170 \<and> grace st' = 0 \<and> \<not> some (\<lambda>s. EQ s (food st')) (snake st')
        \<and> inGrid 14 (food st'))"
proof -
  let ?over = "examplePage\<lparr>gameOver := True, scoreState := 9\<rparr>"
  have u: "unitInterval (scan 14)" by (rule scan_unitInterval) simp
  have f: "fair (scan 14) (randomCalls examplePage) 14" "fair (scan 14) (randomCalls ?over) 14"
    using scan_fair[of 14] by (simp_all add: examplePage_def)
  note A = reset_initial_configuration [of "scan 14" "Some (280, 300)" ?over 280 300]
  from A u f(2) obtain st' p' where
    r: "reset (scan 14) (Some (280, 300)) ?over = Some (Inr (st', p'))" "inGrid 14 (food st')"
    by blast
  from A r(1) have "gridSize st' = 14 \<and> snake st' = [\<lparr>x = 7, y = 7\<rparr>, \<lparr>x = 6, y = 7\<rparr>]
        \<and> dir st' = \<lparr>x = 1, y = 0\<rparr> \<and> nextDir st' = \<lparr>x = 1, y = 0\<rparr> \<and> score st' = 0
        \<and> tickMs st' = 170 \<and> grace st' = 0 \<and> \<not> some (\<lambda>s. EQ s (food st')) (snake st')"
    by blast
  with r u f(1) example_reset show ?thesis by blast
qed

end
